theory Spec2Isabelle
  imports Main
begin

section \<open>Documents and the collection behind a Mongoose model\<close>

text \<open>
  Every entity of the repository is a document with an identity (\<open>_id\<close> in the source,
  \<open>doc_id\<close> here, since an Isabelle name cannot start with an underscore) and the
  soft-delete flag \<open>deleted\<close>. The record is extensible: the business fields of an
  inventory and the fields of a user live in the extension part.
\<close>

record doc =
  doc_id :: nat
  deleted :: bool

text \<open>
  A collection is the list of its documents in storage order. MongoDB keeps \<open>_id\<close>
  unique within a collection; \<open>wf\<close> states that invariant.
\<close>

definition wf :: "'a doc_scheme list \<Rightarrow> bool" where
  "wf c = distinct (map doc_id c)"

text \<open>
  The query primitives of the Mongoose model that \<open>service.js\<close> calls.
  \<open>find\<close> returns every match, \<open>findOne\<close> the first match or null (\<open>None\<close>).
  \<open>findByIdAndUpdate\<close> changes the first document with the given id; without the
  option \<open>new: true\<close> it returns the document as it was before the update, with it
  the updated document; null when no document has the id.
  \<open>findByIdAndDelete\<close> removes the first document with the id and returns it.
\<close>

definition find_docs :: "('d \<Rightarrow> bool) \<Rightarrow> 'd list \<Rightarrow> 'd list" where
  "find_docs q c = filter q c"

definition findOne :: "('d \<Rightarrow> bool) \<Rightarrow> 'd list \<Rightarrow> 'd option" where
  "findOne q c = List.find q c"

fun findOneAndUpdate ::
  "('d \<Rightarrow> bool) \<Rightarrow> ('d \<Rightarrow> 'd) \<Rightarrow> bool \<Rightarrow> 'd list \<Rightarrow> 'd option \<times> 'd list" where
  "findOneAndUpdate q f new [] = (None, [])"
| "findOneAndUpdate q f new (d # c) =
     (if q d then (Some (if new then f d else d), f d # c)
      else (case findOneAndUpdate q f new c of (r, c') \<Rightarrow> (r, d # c')))"

fun findOneAndDelete :: "('d \<Rightarrow> bool) \<Rightarrow> 'd list \<Rightarrow> 'd option \<times> 'd list" where
  "findOneAndDelete q [] = (None, [])"
| "findOneAndDelete q (d # c) =
     (if q d then (Some d, c)
      else (case findOneAndDelete q c of (r, c') \<Rightarrow> (r, d # c')))"

definition findByIdAndUpdate ::
  "nat \<Rightarrow> ('a doc_scheme \<Rightarrow> 'a doc_scheme) \<Rightarrow> bool \<Rightarrow> 'a doc_scheme list
    \<Rightarrow> 'a doc_scheme option \<times> 'a doc_scheme list" where
  "findByIdAndUpdate i f new c = findOneAndUpdate (\<lambda>d. doc_id d = i) f new c"

definition findByIdAndDelete ::
  "nat \<Rightarrow> 'a doc_scheme list \<Rightarrow> 'a doc_scheme option \<times> 'a doc_scheme list" where
  "findByIdAndDelete i c = findOneAndDelete (\<lambda>d. doc_id d = i) c"

section \<open>Errors\<close>

text \<open>
  \<open>createError(status, message)\<close> of http-errors builds an error with that status and
  message; called with a message only it builds one with the default status, 500.
  The file \<open>constants/index.js\<close> that gives \<open>STATUSCODE\<close> its numbers is not among the
  sources, so the names the handlers use are kept as constructors. Reading a property
  of \<open>null\<close> or \<open>undefined\<close> throws a JavaScript \<open>TypeError\<close>, and a Mongoose update
  with \<open>runValidators\<close> throws a \<open>ValidationError\<close> when the schema refuses it.
\<close>

datatype statuscode = BAD_REQUEST | UNAUTHORIZED | NOT_FOUND | INTERNAL_SERVER_ERROR

datatype error = HttpError statuscode string | TypeError | ValidationError

definition createError :: "statuscode \<Rightarrow> string \<Rightarrow> error" where
  "createError s m = HttpError s m"

definition createError_message :: "string \<Rightarrow> error" where
  "createError_message m = HttpError INTERNAL_SERVER_ERROR m"

section \<open>The persistence adapter: routes/v1/inventories/service.js\<close>

text \<open>
  Each function takes the collection and, when it writes, returns the query's result
  together with the collection after the write. The transactional \<open>session\<close> argument
  is passed through to the driver and changes no result, so it is left out.
\<close>

definition getAll :: "'a doc_scheme list \<Rightarrow> 'a doc_scheme list" where
  "getAll c = find_docs (\<lambda>d. deleted d = False) c"

definition getAllDeleted :: "'a doc_scheme list \<Rightarrow> 'a doc_scheme list" where
  "getAllDeleted c = find_docs (\<lambda>d. deleted d = True) c"

definition getById :: "nat \<Rightarrow> 'a doc_scheme list \<Rightarrow> 'a doc_scheme option" where
  "getById i c = findOne (\<lambda>d. doc_id d = i \<and> deleted d = False) c"

definition deleteById ::
  "nat \<Rightarrow> 'a doc_scheme list \<Rightarrow> 'a doc_scheme option \<times> 'a doc_scheme list" where
  "deleteById i c = findByIdAndUpdate i (\<lambda>d. d\<lparr>deleted := True\<rparr>) False c"

definition restoreById ::
  "nat \<Rightarrow> 'a doc_scheme list \<Rightarrow> 'a doc_scheme option \<times> 'a doc_scheme list" where
  "restoreById i c = findByIdAndUpdate i (\<lambda>d. d\<lparr>deleted := False\<rparr>) False c"

definition forceDelete ::
  "nat \<Rightarrow> 'a doc_scheme list \<Rightarrow> 'a doc_scheme option \<times> 'a doc_scheme list" where
  "forceDelete i c = findByIdAndDelete i c"

text \<open>
  \<open>update\<close> of \<open>service.js\<close>: \<open>findByIdAndUpdate(_id, body, {new: true, runValidators:
  true})\<close>. The schema (\<open>model.js\<close>) is not among the sources: \<open>valid\<close> says which
  bodies its validators accept and \<open>apply_body\<close> how a body overwrites the fields of a
  document.
\<close>

definition update ::
  "('b \<Rightarrow> bool) \<Rightarrow> ('b \<Rightarrow> 'a doc_scheme \<Rightarrow> 'a doc_scheme) \<Rightarrow> nat \<Rightarrow> 'b \<Rightarrow> 'a doc_scheme list
    \<Rightarrow> (error + 'a doc_scheme option) \<times> 'a doc_scheme list" where
  "update valid apply_body i body c =
     (if \<not> valid body then (Inl ValidationError, c)
      else (case findByIdAndUpdate i (apply_body body) True c of (r, c') \<Rightarrow> (Inr r, c')))"

text \<open>The ids a listing shows.\<close>

definition ids :: "'a doc_scheme list \<Rightarrow> nat set" where
  "ids c = set (map doc_id c)"

section \<open>Users\<close>

record image_ref =
  public_id :: string
  url :: string

record vcode =
  code :: string
  createdAt :: int

text \<open>
  A user, as the spec's data model lists it: email, hashed password, role, profile image
  references (the field \<open>image\<close> of the source, \<open>image_refs\<close> here) and the optional
  \<open>verificationCode\<close> record (\<open>None\<close>: no code is on record, because none was issued
  yet or because it was cleared). Times are milliseconds since the epoch, as
  \<open>Date.now()\<close> counts them.
\<close>

record user = doc +
  email :: string
  password :: string
  role :: string
  image_refs :: "image_ref list"
  verificationCode :: "vcode option"

text \<open>
  What a handler gets when it reads \<open>verificationCode\<close> of a user document. The user
  schema (\<open>users/model.js\<close>) is not among the sources, and Mongoose answers by the
  schema: when \<open>verificationCode\<close> is declared as a nested path \<open>{code, createdAt}\<close>
  the document always gives an object, whose \<open>createdAt\<close> is \<open>undefined\<close> while no code
  is on record; otherwise a user with no code on record gives \<open>null\<close> or \<open>undefined\<close>.
  The parameter \<open>nested\<close> says which of the two the schema does. A user with a code on
  record gives the object with its \<open>createdAt\<close> either way.
\<close>

datatype vread = ReadNull | ReadObject "int option"

definition read_verificationCode :: "bool \<Rightarrow> user \<Rightarrow> vread" where
  "read_verificationCode nested u =
     (case verificationCode u of
        Some v \<Rightarrow> ReadObject (Some (createdAt v))
      | None \<Rightarrow> if nested then ReadObject None else ReadNull)"

text \<open>
  The process-wide state the handlers of \<open>users/controller.js\<close> read and write: the
  user collection, the single token slot and the blacklist of \<open>middlewares/blacklist.js\<close>,
  and the calls made to the two external collaborators: the mails handed to
  \<open>sendEmail\<close> (recipient, code) and the public ids handed to the image store for
  deletion, one entry per call of \<open>multipleImages\<close>.
\<close>

record state =
  users :: "user list"
  token :: "string option"
  blacklist :: "string set"
  mails :: "(string \<times> string) list"
  image_deletes :: "string list list"

text \<open>
  What a handler hands to \<open>responseHandler(res, data, message, meta)\<close>: a single document
  (or \<open>null\<close>) or an array of them, the message, and the optional access token.
\<close>

datatype payload = Doc "user option" | Docs "user option list"

record response =
  data :: payload
  message :: string
  meta :: "string option"

text \<open>JavaScript's \<open>!x\<close> for a value that is a string or \<open>undefined\<close>/\<open>null\<close>.\<close>

definition falsy :: "string option \<Rightarrow> bool" where
  "falsy x = (case x of None \<Rightarrow> True | Some s \<Rightarrow> s = [])"

subsection \<open>middlewares/blacklist.js\<close>

text \<open>
  Modelled from the spec: \<open>middlewares/blacklist.js\<close> is not among the sources. The spec
  describes it as a process-wide single slot holding at most one access token plus a
  blacklist set; \<open>blacklistToken\<close> adds the current token to the set and
  \<open>isTokenBlacklisted\<close> tests the current token against it.
\<close>

definition setToken :: "string \<Rightarrow> state \<Rightarrow> state" where
  "setToken t st = st\<lparr>token := Some t\<rparr>"

definition getToken :: "state \<Rightarrow> string option" where
  "getToken st = token st"

definition blacklistToken :: "state \<Rightarrow> state" where
  "blacklistToken st =
     (case token st of None \<Rightarrow> st | Some t \<Rightarrow> st\<lparr>blacklist := insert t (blacklist st)\<rparr>)"

definition isTokenBlacklisted :: "state \<Rightarrow> bool" where
  "isTokenBlacklisted st = (case token st of None \<Rightarrow> False | Some t \<Rightarrow> t \<in> blacklist st)"

subsection \<open>routes/v1/users/service.js\<close>

text \<open>
  Modelled from the spec: \<open>routes/v1/users/service.js\<close> is not among the sources. Its
  listing, lookup, update, soft-delete, restore and force-delete are the persistence
  adapter of the spec, which the inventories service above implements for any
  collection; the handlers below call those. The four functions that are particular to
  users follow the spec's words: \<open>getEmail\<close> looks the user up by email, \<open>getCode\<close> by
  stored verification code, \<open>sendEmailOTP\<close> stores \<open>{code, createdAt}\<close> on the user
  record, and \<open>resetPassword\<close> overwrites the password hash and clears the code. Each
  is one Mongoose query, so a lookup that matches nothing yields \<open>null\<close>.
\<close>

definition getEmail :: "string \<Rightarrow> user list \<Rightarrow> user option" where
  "getEmail e us = findOne (\<lambda>u. email u = e) us"

definition has_code :: "string \<Rightarrow> user \<Rightarrow> bool" where
  "has_code vc u = (case verificationCode u of None \<Rightarrow> False | Some v \<Rightarrow> code v = vc)"

definition getCode :: "string \<Rightarrow> user list \<Rightarrow> user option" where
  "getCode vc us = findOne (has_code vc) us"

definition sendEmailOTP :: "string \<Rightarrow> string \<Rightarrow> int \<Rightarrow> user list \<Rightarrow> user option \<times> user list" where
  "sendEmailOTP e c now us =
     findOneAndUpdate (\<lambda>u. email u = e)
       (\<lambda>u. u\<lparr>verificationCode := Some \<lparr>code = c, createdAt = now\<rparr>\<rparr>) True us"

definition resetPassword ::
  "(string \<Rightarrow> string) \<Rightarrow> string \<Rightarrow> string \<Rightarrow> user list \<Rightarrow> user option \<times> user list" where
  "resetPassword hash vc newPassword us =
     findOneAndUpdate (has_code vc)
       (\<lambda>u. u\<lparr>password := hash newPassword, verificationCode := None\<rparr>) True us"

text \<open>\<open>doc.save()\<close> of Mongoose: the stored document with the same id is replaced.\<close>

definition save :: "'a doc_scheme \<Rightarrow> 'a doc_scheme list \<Rightarrow> 'a doc_scheme list" where
  "save d c = snd (findByIdAndUpdate (doc_id d) (\<lambda>_. d) False c)"

text \<open>
  The body of an update request: every field is optional, and a field that is present
  overwrites the stored one.
\<close>

record user_patch =
  p_email :: "string option"
  p_password :: "string option"
  p_role :: "string option"
  p_deleted :: "bool option"
  p_image :: "image_ref list option"

definition apply_patch :: "user_patch \<Rightarrow> user \<Rightarrow> user" where
  "apply_patch b u =
     u\<lparr>deleted := (case p_deleted b of None \<Rightarrow> deleted u | Some x \<Rightarrow> x),
       email := (case p_email b of None \<Rightarrow> email u | Some x \<Rightarrow> x),
       password := (case p_password b of None \<Rightarrow> password u | Some x \<Rightarrow> x),
       role := (case p_role b of None \<Rightarrow> role u | Some x \<Rightarrow> x),
       image_refs := (case p_image b of None \<Rightarrow> image_refs u | Some x \<Rightarrow> x)\<rparr>"

subsection \<open>utils/multipleImages.js and utils/passMailer.js\<close>

text \<open>
  Modelled from the spec: neither file is among the sources. The image store uploads
  files, giving one \<open>{public_id, url}\<close> per file, and deletes by public id;
  \<open>multipleImages(files, oldPublicIds)\<close> hands the old ids to the store for deletion and
  returns the uploaded images (\<open>upload\<close> is the store's answer). \<open>sendEmail(to, code)\<close>
  dispatches the code; the model records the dispatch.
\<close>

definition multipleImages ::
  "(string list \<Rightarrow> image_ref list) \<Rightarrow> string list \<Rightarrow> string list \<Rightarrow> state
    \<Rightarrow> image_ref list \<times> state" where
  "multipleImages upload files oldIds st =
     (upload files, st\<lparr>image_deletes := image_deletes st @ [oldIds]\<rparr>)"

definition sendEmail :: "string \<Rightarrow> string \<Rightarrow> state \<Rightarrow> state" where
  "sendEmail to c st = st\<lparr>mails := mails st @ [(to, c)]\<rparr>"

section \<open>The request handlers: routes/v1/users/controller.js\<close>

text \<open>
  A handler takes the request's input and the state and returns what it answers (an
  error thrown or passed to \<open>next\<close>, or the response) with the state it leaves behind.
  \<open>bcrypt.compare\<close>, \<open>bcrypt.hash\<close>, \<open>generateAccess\<close> (its \<open>access\<close> field, made from the
  user's id and role) and the validators of the user schema are parameters; so are the
  current time and the code that \<open>generateRandomCode\<close> draws in the call.

  Line 179 of \<open>sendUserEmailOTP\<close> evaluates
  \<open>new Date() - new Date(email.verificationCode.createdAt) < 5 * 60 * 1000\<close>. Reading
  \<open>verificationCode\<close> of \<open>null\<close> (no user found) or \<open>createdAt\<close> of \<open>null\<close> (the document
  gives no object) throws the \<open>TypeError\<close>. On an object without \<open>createdAt\<close>,
  \<open>new Date(undefined)\<close> is an invalid date, the difference is \<open>NaN\<close> and the comparison
  is false, so the handler goes on to issue a code.
\<close>

definition loginUser ::
  "(string \<Rightarrow> string \<Rightarrow> bool) \<Rightarrow> (nat \<Rightarrow> string \<Rightarrow> string) \<Rightarrow> string \<Rightarrow> string \<Rightarrow> state
    \<Rightarrow> (error + response) \<times> state" where
  "loginUser compare generateAccess e pw st =
     (case getEmail e (users st) of
        None \<Rightarrow> (Inl (createError NOT_FOUND ''No User found''), st)
      | Some d \<Rightarrow>
          if \<not> compare pw (password d)
          then (Inl (createError UNAUTHORIZED ''Password does not match''), st)
          else
            (let accessToken = generateAccess (doc_id d) (role d)
             in (Inr \<lparr>data = Doc (Some d), message = ''User Login successfully'',
                      meta = Some accessToken\<rparr>,
                 setToken accessToken st)))"

definition logoutUser :: "state \<Rightarrow> (error + response) \<times> state" where
  "logoutUser st =
     (let savedToken = getToken st
      in if falsy savedToken \<or> isTokenBlacklisted st
         then (Inl (createError UNAUTHORIZED ''You are not logged in''), st)
         else (Inr \<lparr>data = Docs [], message = ''User Logout successfully'', meta = None\<rparr>,
               blacklistToken st))"

definition updateUser ::
  "(user_patch \<Rightarrow> bool) \<Rightarrow> (string list \<Rightarrow> image_ref list) \<Rightarrow> nat \<Rightarrow> user_patch
    \<Rightarrow> string list \<Rightarrow> state \<Rightarrow> (error + response) \<times> state" where
  "updateUser valid upload i body files st =
     (let oldData = getById i (users st);
          uploaded =
            (if length files > 0
             then (case multipleImages upload files
                          (case oldData of None \<Rightarrow> []
                           | Some old \<Rightarrow> map public_id (image_refs old)) st
                   of (imgs, st1) \<Rightarrow> Inr (imgs, st1))
             else (case oldData of None \<Rightarrow> Inl TypeError
                   | Some old \<Rightarrow> Inr (image_refs old, st)))
      in case uploaded of
           Inl err \<Rightarrow> (Inl err, st)
         | Inr (uploadedImages, st1) \<Rightarrow>
             (case update valid apply_patch i (body\<lparr>p_image := Some uploadedImages\<rparr>)
                     (users st1) of
                (Inl err, us) \<Rightarrow> (Inl err, st1\<lparr>users := us\<rparr>)
              | (Inr d, us) \<Rightarrow>
                  (Inr \<lparr>data = Docs [d], message = ''User updated successfully'',
                        meta = None\<rparr>,
                   st1\<lparr>users := us\<rparr>)))"

definition forceDeleteUser ::
  "(string list \<Rightarrow> image_ref list) \<Rightarrow> nat \<Rightarrow> state \<Rightarrow> (error + response) \<times> state" where
  "forceDeleteUser upload i st =
     (case forceDelete i (users st) of
        (d, us) \<Rightarrow>
          (let st1 = st\<lparr>users := us\<rparr>;
               msg = (if d = None then ''No User found''
                      else ''User force deleted successfully'');
               st2 = snd (multipleImages upload []
                            (case d of None \<Rightarrow> []
                             | Some x \<Rightarrow> map public_id (image_refs x)) st1)
           in (Inr \<lparr>data = Docs [d], message = msg, meta = None\<rparr>, st2)))"

definition sendUserEmailOTP ::
  "bool \<Rightarrow> string \<Rightarrow> int \<Rightarrow> string \<Rightarrow> state \<Rightarrow> (error + response) \<times> state" where
  "sendUserEmailOTP nested randomCode now e st =
     (case getEmail e (users st) of
        None \<Rightarrow> (Inl TypeError, st)
      | Some u \<Rightarrow>
          (case read_verificationCode nested u of
             ReadNull \<Rightarrow> (Inl TypeError, st)
           | ReadObject created \<Rightarrow>
               if (case created of None \<Rightarrow> False | Some t \<Rightarrow> now - t < 5 * 60 * 1000)
               then (Inl (createError_message
                       ''Please wait 5 minutes before requesting a new verification code''),
                     st)
               else
                 (let st1 = sendEmail e randomCode st
                  in case sendEmailOTP e randomCode now (users st1) of
                       (d, us) \<Rightarrow>
                         (Inr \<lparr>data = Docs [d], message = ''Email OTP sent successfully'',
                               meta = None\<rparr>,
                          st1\<lparr>users := us\<rparr>))))"

record reset_body =
  newPassword :: "string option"
  confirmPassword :: "string option"
  body_verificationCode :: string

definition resetUserEmailPassword ::
  "(string \<Rightarrow> string) \<Rightarrow> int \<Rightarrow> reset_body \<Rightarrow> state \<Rightarrow> (error + response) \<times> state" where
  "resetUserEmailPassword hash now body st =
     (if falsy (newPassword body) \<or> falsy (confirmPassword body)
         \<or> newPassword body \<noteq> confirmPassword body
      then (Inl (createError BAD_REQUEST ''Passwords are required and must match''), st)
      else
        (case getCode (body_verificationCode body) (users st) of
           None \<Rightarrow> (Inl TypeError, st)
         | Some c \<Rightarrow>
             (case verificationCode c of
                None \<Rightarrow> (Inl TypeError, st)
              | Some v \<Rightarrow>
                  if now - createdAt v > 5 * 60 * 1000
                  then (Inl (createError_message ''Verification code has expired''),
                        st\<lparr>users := save (c\<lparr>verificationCode := None\<rparr>) (users st)\<rparr>)
                  else
                    (case newPassword body of
                       None \<Rightarrow> (Inl TypeError, st)
                     | Some pw \<Rightarrow>
                         (case resetPassword hash (body_verificationCode body) pw (users st) of
                            (None, us) \<Rightarrow>
                              (Inl (createError BAD_REQUEST ''Invalid verification code''),
                               st\<lparr>users := us\<rparr>)
                          | (Some d, us) \<Rightarrow>
                              (Inr \<lparr>data = Docs [Some d],
                                    message = ''Password Successfully Reset'', meta = None\<rparr>,
                               st\<lparr>users := us\<rparr>))))))"

text \<open>
  Two branches of \<open>resetUserEmailPassword\<close> are written out for totality and cannot be
  taken, whatever the schema: \<open>getCode\<close> only returns a user that has a verification
  code on record, whose document gives the object with its \<open>createdAt\<close>, and a missing
  \<open>newPassword\<close> has already left through the first check.
\<close>

text \<open>The stored document with a given id, deleted or not.\<close>

definition stored :: "nat \<Rightarrow> 'a doc_scheme list \<Rightarrow> 'a doc_scheme option" where
  "stored i c = findOne (\<lambda>d. doc_id d = i) c"

text \<open>Emails are unique within the user collection (the schema's unique index).\<close>

definition unique_emails :: "user list \<Rightarrow> bool" where
  "unique_emails us = distinct (map email us)"

section \<open>Example data\<close>

text \<open>
  Concrete users, a state around a user collection, and stand-ins for the password
  check, the password hash and the token issuer. The instances of the theorems below
  are stated on them.
\<close>

abbreviation alice :: user where
  "alice \<equiv> \<lparr>doc_id = 1, deleted = False, email = ''alice@example.com'',
     password = ''h:secret'', role = ''customer'',
     image_refs = [\<lparr>public_id = ''img1'', url = ''http://images/1''\<rparr>],
     verificationCode = None\<rparr>"

abbreviation state_of :: "user list \<Rightarrow> state" where
  "state_of us \<equiv> \<lparr>users = us, token = None, blacklist = {}, mails = [], image_deletes = []\<rparr>"

abbreviation check_hash :: "string \<Rightarrow> string \<Rightarrow> bool" where
  "check_hash \<equiv> (\<lambda>pw h. h = ''h:'' @ pw)"

abbreviation issue :: "nat \<Rightarrow> string \<Rightarrow> string" where
  "issue \<equiv> (\<lambda>i r. ''token:'' @ r)"

abbreviation carol :: user where
  "carol \<equiv> \<lparr>doc_id = 3, deleted = False, email = ''carol@example.com'',
     password = ''h:hunter2'', role = ''admin'', image_refs = [],
     verificationCode = Some \<lparr>code = ''111111'', createdAt = 1700000000000\<rparr>\<rparr>"

abbreviation salted :: "string \<Rightarrow> string" where
  "salted \<equiv> (\<lambda>pw. ''h:'' @ pw)"

section \<open>Facts about the query primitives\<close>

lemma findOneAndUpdate_snd_length:
  "length (snd (findOneAndUpdate q f new c)) = length c"
  by (induction c) (auto split: prod.splits)

lemma findOneAndUpdate_None:
  "\<forall>d \<in> set c. \<not> q d \<Longrightarrow> findOneAndUpdate q f new c = (None, c)"
  by (induction c) auto

lemma findOneAndDelete_None:
  "\<forall>d \<in> set c. \<not> q d \<Longrightarrow> findOneAndDelete q c = (None, c)"
  by (induction c) auto

lemma map_other_ids:
  "i \<notin> set (map doc_id c) \<Longrightarrow> map (\<lambda>x. if doc_id x = i then f x else x) c = c"
  by (induction c) auto

lemma filter_other_ids:
  "i \<notin> set (map doc_id c) \<Longrightarrow> filter (\<lambda>x. doc_id x \<noteq> i) c = c"
  by (induction c) auto

lemma findByIdAndUpdate_absent:
  "i \<notin> set (map doc_id c) \<Longrightarrow> findByIdAndUpdate i f new c = (None, c)"
  unfolding findByIdAndUpdate_def by (rule findOneAndUpdate_None) auto

lemma findByIdAndDelete_absent:
  "i \<notin> set (map doc_id c) \<Longrightarrow> findByIdAndDelete i c = (None, c)"
  unfolding findByIdAndDelete_def by (rule findOneAndDelete_None) auto

lemma findByIdAndUpdate_present:
  assumes "wf c" and "d \<in> set c"
  shows "findByIdAndUpdate (doc_id d) f new c =
    (Some (if new then f d else d), map (\<lambda>x. if doc_id x = doc_id d then f x else x) c)"
  using assms
proof (induction c)
  case Nil
  then show ?case by simp
next
  case (Cons x c)
  show ?case
  proof (cases "doc_id x = doc_id d")
    case True
    with Cons.prems have absent: "doc_id d \<notin> set (map doc_id c)"
      by (auto simp: wf_def)
    with Cons.prems True have "x = d"
      by (auto simp: wf_def)
    with absent show ?thesis
      by (simp add: findByIdAndUpdate_def map_other_ids)
  next
    case False
    with Cons.prems have "wf c" and "d \<in> set c"
      by (auto simp: wf_def)
    with Cons.IH False show ?thesis
      by (simp add: findByIdAndUpdate_def)
  qed
qed

lemma findByIdAndDelete_present:
  assumes "wf c" and "d \<in> set c"
  shows "findByIdAndDelete (doc_id d) c = (Some d, filter (\<lambda>x. doc_id x \<noteq> doc_id d) c)"
  using assms
proof (induction c)
  case Nil
  then show ?case by simp
next
  case (Cons x c)
  show ?case
  proof (cases "doc_id x = doc_id d")
    case True
    with Cons.prems have absent: "doc_id d \<notin> set (map doc_id c)"
      by (auto simp: wf_def)
    with Cons.prems True have "x = d"
      by (auto simp: wf_def)
    with absent show ?thesis
      by (simp add: findByIdAndDelete_def filter_other_ids)
  next
    case False
    with Cons.prems have "wf c" and "d \<in> set c"
      by (auto simp: wf_def)
    with Cons.IH False show ?thesis
      by (simp add: findByIdAndDelete_def)
  qed
qed

lemma findByIdAndUpdate_wf:
  assumes "\<And>x. doc_id (f x) = doc_id x"
  shows "map doc_id (snd (findByIdAndUpdate i f new c)) = map doc_id c"
  using assms by (induction c) (auto simp: findByIdAndUpdate_def split: prod.splits)

lemma findOneAndDelete_subset: "set (snd (findOneAndDelete q c)) \<subseteq> set c"
  by (induction c) (auto split: prod.splits)

lemma findByIdAndDelete_wf: "wf c \<Longrightarrow> wf (snd (findByIdAndDelete i c))"
proof (induction c)
  case Nil
  then show ?case by (simp add: findByIdAndDelete_def)
next
  case (Cons x c)
  have "set (snd (findOneAndDelete (\<lambda>d. doc_id d = i) c)) \<subseteq> set c"
    by (rule findOneAndDelete_subset)
  with Cons show ?case
    by (auto simp: findByIdAndDelete_def wf_def split: prod.splits)
qed


text \<open>The writes of the persistence adapter keep the ids unique.\<close>

lemma service_preserves_wf:
  assumes "wf c"
  shows "wf (snd (deleteById i c)) \<and> wf (snd (restoreById i c)) \<and> wf (snd (forceDelete i c))"
proof -
  have "map doc_id (snd (deleteById i c)) = map doc_id c"
    unfolding deleteById_def by (rule findByIdAndUpdate_wf) simp
  moreover have "map doc_id (snd (restoreById i c)) = map doc_id c"
    unfolding restoreById_def by (rule findByIdAndUpdate_wf) simp
  ultimately show ?thesis
    using assms findByIdAndDelete_wf [OF assms, of i] by (simp add: wf_def forceDelete_def)
qed

section \<open>Facts about lookups by id\<close>

lemma wf_same_id: "wf c \<Longrightarrow> d \<in> set c \<Longrightarrow> x \<in> set c \<Longrightarrow> doc_id x = doc_id d \<Longrightarrow> x = d"
  by (auto simp: wf_def distinct_map inj_on_def)

lemma findOne_by_id:
  assumes "wf c" and "d \<in> set c" and "P d"
  shows "findOne (\<lambda>x. doc_id x = doc_id d \<and> P x) c = Some d"
  using assms
proof (induction c)
  case Nil
  then show ?case by simp
next
  case (Cons x c)
  show ?case
  proof (cases "x = d")
    case True
    with Cons.prems show ?thesis by (simp add: findOne_def)
  next
    case False
    with Cons.prems have "doc_id x \<noteq> doc_id d" and "wf c" and "d \<in> set c"
      by (auto simp: wf_def)
    with Cons.IH Cons.prems show ?thesis by (simp add: findOne_def)
  qed
qed

lemma findOne_None_iff: "findOne q c = None \<longleftrightarrow> (\<forall>x \<in> set c. \<not> q x)"
  by (auto simp: findOne_def find_None_iff)

lemma wf_map_flag: "wf (map (\<lambda>x. if doc_id x = i then x\<lparr>deleted := b\<rparr> else x) c) = wf c"
proof -
  have "map doc_id (map (\<lambda>x. if doc_id x = i then x\<lparr>deleted := b\<rparr> else x) c) = map doc_id c"
    by (induction c) auto
  then show ?thesis unfolding wf_def by (simp only:)
qed

section \<open>The soft-delete lifecycle of the persistence adapter\<close>

text \<open>
  C1. A record whose soft-delete flag is true is left out of the default listing
  (\<open>getAll\<close>) and of the default lookup (\<open>getById\<close>), yet \<open>restoreById\<close> and
  \<open>forceDelete\<close> still reach it by its id: both return the record itself (not \<open>null\<close>),
  restoring clears the flag of exactly that record, after which \<open>getById\<close> finds it,
  and force-deleting removes exactly that record. Neither asks for \<open>deleted = false\<close>.
\<close>

theorem soft_deleted_excluded_but_addressable:
  assumes "wf c" and "d \<in> set c" and "deleted d"
  shows "d \<notin> set (getAll c) \<and> doc_id d \<notin> ids (getAll c) \<and> getById (doc_id d) c = None
     \<and> restoreById (doc_id d) c =
         (Some d, map (\<lambda>x. if doc_id x = doc_id d then x\<lparr>deleted := False\<rparr> else x) c)
     \<and> getById (doc_id d) (snd (restoreById (doc_id d) c)) = Some (d\<lparr>deleted := False\<rparr>)
     \<and> forceDelete (doc_id d) c = (Some d, filter (\<lambda>x. doc_id x \<noteq> doc_id d) c)"
proof -
  let ?c' = "map (\<lambda>x. if doc_id x = doc_id d then x\<lparr>deleted := False\<rparr> else x) c"
  have same: "\<And>x. x \<in> set c \<Longrightarrow> doc_id x = doc_id d \<Longrightarrow> x = d"
    using assms(1,2) by (rule wf_same_id)
  have listing: "d \<notin> set (getAll c)"
    using assms(3) by (simp add: getAll_def find_docs_def)
  have listing_id: "doc_id d \<notin> ids (getAll c)"
    using assms(3) same by (auto simp: ids_def getAll_def find_docs_def)
  have lookup: "getById (doc_id d) c = None"
    using assms(3) same by (auto simp: getById_def findOne_None_iff)
  have restore: "restoreById (doc_id d) c = (Some d, ?c')"
    using findByIdAndUpdate_present [OF assms(1,2), of "\<lambda>x. x\<lparr>deleted := False\<rparr>" False]
    by (simp add: restoreById_def)
  have "wf ?c'" using assms(1) by (simp only: wf_map_flag)
  moreover have "d\<lparr>deleted := False\<rparr> \<in> set ?c'"
    using assms(2) by force
  ultimately have "findOne (\<lambda>x. doc_id x = doc_id (d\<lparr>deleted := False\<rparr>) \<and> deleted x = False) ?c'
      = Some (d\<lparr>deleted := False\<rparr>)"
    by (rule findOne_by_id) simp
  then have after: "getById (doc_id d) (snd (restoreById (doc_id d) c)) = Some (d\<lparr>deleted := False\<rparr>)"
    by (simp add: restore getById_def)
  have force: "forceDelete (doc_id d) c = (Some d, filter (\<lambda>x. doc_id x \<noteq> doc_id d) c)"
    using findByIdAndDelete_present [OF assms(1,2)] by (simp add: forceDelete_def)
  from listing listing_id lookup restore after force show ?thesis by blast
qed

theorem soft_deleted_excluded_but_addressable_witness:
  "wf [\<lparr>doc_id = 1, deleted = True\<rparr>, \<lparr>doc_id = 2, deleted = False\<rparr>]
   \<and> getAll [\<lparr>doc_id = 1, deleted = True\<rparr>, \<lparr>doc_id = 2, deleted = False\<rparr>] = [\<lparr>doc_id = 2, deleted = False\<rparr>]
   \<and> getById 1 [\<lparr>doc_id = 1, deleted = True\<rparr>, \<lparr>doc_id = 2, deleted = False\<rparr>] = None
   \<and> restoreById 1 [\<lparr>doc_id = 1, deleted = True\<rparr>, \<lparr>doc_id = 2, deleted = False\<rparr>]
       = (Some \<lparr>doc_id = 1, deleted = True\<rparr>, [\<lparr>doc_id = 1, deleted = False\<rparr>, \<lparr>doc_id = 2, deleted = False\<rparr>])
   \<and> forceDelete 1 [\<lparr>doc_id = 1, deleted = True\<rparr>, \<lparr>doc_id = 2, deleted = False\<rparr>]
       = (Some \<lparr>doc_id = 1, deleted = True\<rparr>, [\<lparr>doc_id = 2, deleted = False\<rparr>])"
  using soft_deleted_excluded_but_addressable
    [of "[\<lparr>doc_id = 1, deleted = True\<rparr>, \<lparr>doc_id = 2, deleted = False\<rparr>]" "\<lparr>doc_id = 1, deleted = True\<rparr>"]
  by (simp add: wf_def getAll_def find_docs_def getById_def findOne_def)


section \<open>Facts about soft delete, restore and force delete\<close>

lemma ids_memI: "x \<in> set c \<Longrightarrow> doc_id x \<in> ids c"
  by (simp add: ids_def)

lemma findOneAndUpdate_idem:
  assumes "\<And>x. f (f x) = f x" and "\<And>x. q (f x) = q x"
  shows "snd (findOneAndUpdate q f new (snd (findOneAndUpdate q f new c)))
    = snd (findOneAndUpdate q f new c)"
  using assms by (induction c) (auto split: prod.splits)

lemma forceDelete_removes_id:
  assumes "wf c"
  shows "i \<notin> ids (snd (forceDelete i c))"
proof (cases "i \<in> set (map doc_id c)")
  case True
  then obtain d where d: "d \<in> set c" "doc_id d = i" by auto
  from findByIdAndDelete_present [OF assms d(1)] d(2)
  show ?thesis by (auto simp: forceDelete_def ids_def)
next
  case False
  then show ?thesis
    by (simp add: forceDelete_def findByIdAndDelete_absent ids_def)
qed

text \<open>
  C7. After \<open>forceDelete(id)\<close> no lookup finds the id: it is in neither the active
  listing nor the deleted listing, \<open>getById\<close> returns \<open>null\<close>, and no stored document
  has the id at all. This holds for every id, whether a record had it or not.
\<close>

theorem forceDelete_then_absent:
  assumes "wf c"
  shows "i \<notin> ids (getAll (snd (forceDelete i c)))
    \<and> i \<notin> ids (getAllDeleted (snd (forceDelete i c)))
    \<and> getById i (snd (forceDelete i c)) = None
    \<and> stored i (snd (forceDelete i c)) = None"
proof -
  have gone: "i \<notin> ids (snd (forceDelete i c))"
    using assms by (rule forceDelete_removes_id)
  then have none: "\<forall>x \<in> set (snd (forceDelete i c)). doc_id x \<noteq> i"
    by (auto simp: ids_def)
  from none have "i \<notin> ids (getAll (snd (forceDelete i c)))"
    by (auto simp: ids_def getAll_def find_docs_def)
  moreover from none have "i \<notin> ids (getAllDeleted (snd (forceDelete i c)))"
    by (auto simp: ids_def getAllDeleted_def find_docs_def)
  moreover from none have "getById i (snd (forceDelete i c)) = None"
    by (simp add: getById_def findOne_None_iff)
  moreover from none have "stored i (snd (forceDelete i c)) = None"
    by (simp add: stored_def findOne_None_iff)
  ultimately show ?thesis by blast
qed

theorem forceDelete_then_absent_witness:
  "wf [\<lparr>doc_id = 1, deleted = True\<rparr>, \<lparr>doc_id = 2, deleted = False\<rparr>]
   \<and> snd (forceDelete 2 [\<lparr>doc_id = 1, deleted = True\<rparr>, \<lparr>doc_id = 2, deleted = False\<rparr>])
       = [\<lparr>doc_id = 1, deleted = True\<rparr>]
   \<and> 2 \<notin> ids (getAll (snd (forceDelete 2 [\<lparr>doc_id = 1, deleted = True\<rparr>, \<lparr>doc_id = 2, deleted = False\<rparr>])))
   \<and> 2 \<notin> ids (getAllDeleted (snd (forceDelete 2 [\<lparr>doc_id = 1, deleted = True\<rparr>, \<lparr>doc_id = 2, deleted = False\<rparr>])))
   \<and> getById 2 (snd (forceDelete 2 [\<lparr>doc_id = 1, deleted = True\<rparr>, \<lparr>doc_id = 2, deleted = False\<rparr>])) = None
   \<and> stored 2 (snd (forceDelete 2 [\<lparr>doc_id = 1, deleted = True\<rparr>, \<lparr>doc_id = 2, deleted = False\<rparr>])) = None"
  using forceDelete_then_absent
    [of "[\<lparr>doc_id = 1, deleted = True\<rparr>, \<lparr>doc_id = 2, deleted = False\<rparr>]" 2]
  by (simp add: wf_def forceDelete_def findByIdAndDelete_def)

lemma softDelete_present:
  assumes "wf c" and "d \<in> set c"
  shows "snd (deleteById (doc_id d) c)
    = map (\<lambda>x. if doc_id x = doc_id d then x\<lparr>deleted := True\<rparr> else x) c"
  using findByIdAndUpdate_present [OF assms, of "\<lambda>x. x\<lparr>deleted := True\<rparr>" False]
  by (simp add: deleteById_def)

lemma restore_present:
  assumes "wf c" and "d \<in> set c"
  shows "snd (restoreById (doc_id d) c)
    = map (\<lambda>x. if doc_id x = doc_id d then x\<lparr>deleted := False\<rparr> else x) c"
  using findByIdAndUpdate_present [OF assms, of "\<lambda>x. x\<lparr>deleted := False\<rparr>" False]
  by (simp add: restoreById_def)

lemma restore_after_softDelete:
  assumes "wf c" and "d \<in> set c"
  shows "snd (restoreById (doc_id d) (snd (deleteById (doc_id d) c)))
    = map (\<lambda>x. if doc_id x = doc_id d then x\<lparr>deleted := False\<rparr> else x) c"
proof -
  let ?c' = "map (\<lambda>x. if doc_id x = doc_id d then x\<lparr>deleted := True\<rparr> else x) c"
  have "wf ?c'" using assms(1) by (simp only: wf_map_flag)
  moreover have "d\<lparr>deleted := True\<rparr> \<in> set ?c'" using assms(2) by force
  ultimately have "snd (restoreById (doc_id (d\<lparr>deleted := True\<rparr>)) ?c')
      = map (\<lambda>x. if doc_id x = doc_id (d\<lparr>deleted := True\<rparr>) then x\<lparr>deleted := False\<rparr> else x) ?c'"
    by (rule restore_present)
  then show ?thesis
    by (simp add: softDelete_present [OF assms] o_def if_distrib cong: if_cong)
qed

text \<open>
  C6, as amended. \<open>deleteById\<close> and \<open>restoreById\<close> are idempotent on the collection,
  for every id. For a record of the collection, after \<open>deleteById\<close> the active listing
  leaves its id out and the deleted listing shows it; a \<open>restoreById\<close> after that puts
  the id back into the active listing and takes it out of the deleted one; and when the
  record was active before the soft delete, the restore gives back exactly the
  collection as it was. (A record that was already soft-deleted comes back active, so
  there the collection is not the one before the soft delete: see the counterexample.)
\<close>

theorem softDelete_restore_lifecycle:
  "snd (deleteById i (snd (deleteById i c))) = snd (deleteById i c)
   \<and> snd (restoreById i (snd (restoreById i c))) = snd (restoreById i c)
   \<and> (wf c \<and> d \<in> set c \<longrightarrow>
        doc_id d \<notin> ids (getAll (snd (deleteById (doc_id d) c)))
      \<and> doc_id d \<in> ids (getAllDeleted (snd (deleteById (doc_id d) c)))
      \<and> doc_id d \<in> ids (getAll (snd (restoreById (doc_id d) (snd (deleteById (doc_id d) c)))))
      \<and> doc_id d \<notin> ids (getAllDeleted (snd (restoreById (doc_id d) (snd (deleteById (doc_id d) c)))))
      \<and> (\<not> deleted d \<longrightarrow>
            snd (restoreById (doc_id d) (snd (deleteById (doc_id d) c))) = c))"
proof -
  have idem_delete: "snd (deleteById i (snd (deleteById i c))) = snd (deleteById i c)"
    unfolding deleteById_def findByIdAndUpdate_def
    by (rule findOneAndUpdate_idem) simp_all
  have idem_restore: "snd (restoreById i (snd (restoreById i c))) = snd (restoreById i c)"
    unfolding restoreById_def findByIdAndUpdate_def
    by (rule findOneAndUpdate_idem) simp_all
  have lifecycle: "doc_id d \<notin> ids (getAll (snd (deleteById (doc_id d) c)))
      \<and> doc_id d \<in> ids (getAllDeleted (snd (deleteById (doc_id d) c)))
      \<and> doc_id d \<in> ids (getAll (snd (restoreById (doc_id d) (snd (deleteById (doc_id d) c)))))
      \<and> doc_id d \<notin> ids (getAllDeleted (snd (restoreById (doc_id d) (snd (deleteById (doc_id d) c)))))
      \<and> (\<not> deleted d \<longrightarrow>
            snd (restoreById (doc_id d) (snd (deleteById (doc_id d) c))) = c)"
    if "wf c" and "d \<in> set c"
  proof -
    note del = softDelete_present [OF that]
    note res = restore_after_softDelete [OF that]
    have a: "doc_id d \<notin> ids (getAll (snd (deleteById (doc_id d) c)))"
      unfolding del by (auto simp: ids_def getAll_def find_docs_def)
    have b: "doc_id d \<in> ids (getAllDeleted (snd (deleteById (doc_id d) c)))"
    proof -
      have "d\<lparr>deleted := True\<rparr> \<in> set (getAllDeleted (snd (deleteById (doc_id d) c)))"
        unfolding del using that(2) by (force simp: getAllDeleted_def find_docs_def)
      from ids_memI [OF this] show ?thesis by simp
    qed
    have c: "doc_id d \<in> ids (getAll (snd (restoreById (doc_id d) (snd (deleteById (doc_id d) c)))))"
    proof -
      have "d\<lparr>deleted := False\<rparr>
          \<in> set (getAll (snd (restoreById (doc_id d) (snd (deleteById (doc_id d) c)))))"
        unfolding res using that(2) by (force simp: getAll_def find_docs_def)
      from ids_memI [OF this] show ?thesis by simp
    qed
    have d: "doc_id d \<notin> ids (getAllDeleted (snd (restoreById (doc_id d) (snd (deleteById (doc_id d) c)))))"
      unfolding res by (auto simp: ids_def getAllDeleted_def find_docs_def)
    have e: "snd (restoreById (doc_id d) (snd (deleteById (doc_id d) c))) = c" if "\<not> deleted d"
    proof -
      have "(if doc_id x = doc_id d then x\<lparr>deleted := False\<rparr> else x) = x" if "x \<in> set c" for x
        using wf_same_id [OF \<open>wf c\<close> \<open>d \<in> set c\<close> that] \<open>\<not> deleted d\<close> by auto
      then show ?thesis unfolding res by (simp add: map_idI)
    qed
    from a b c d e show ?thesis by blast
  qed
  from idem_delete idem_restore lifecycle show ?thesis by blast
qed

text \<open>
  The claim as stated, for every existing record, fails on a record that is already
  soft-deleted: \<open>restoreById\<close> after \<open>deleteById\<close> leaves it active.
\<close>

theorem restore_after_softDelete_counterexample:
  "snd (restoreById 1 (snd (deleteById 1 [\<lparr>doc_id = 1, deleted = True\<rparr>])))
     \<noteq> [\<lparr>doc_id = 1, deleted = True\<rparr>]"
  by (simp add: restoreById_def deleteById_def findByIdAndUpdate_def)

theorem softDelete_restore_lifecycle_witness:
  "wf [\<lparr>doc_id = 1, deleted = False\<rparr>, \<lparr>doc_id = 2, deleted = False\<rparr>]
   \<and> \<not> deleted \<lparr>doc_id = 1, deleted = False\<rparr>
   \<and> getAll (snd (deleteById 1 [\<lparr>doc_id = 1, deleted = False\<rparr>, \<lparr>doc_id = 2, deleted = False\<rparr>]))
        = [\<lparr>doc_id = 2, deleted = False\<rparr>]
   \<and> getAllDeleted (snd (deleteById 1 [\<lparr>doc_id = 1, deleted = False\<rparr>, \<lparr>doc_id = 2, deleted = False\<rparr>]))
        = [\<lparr>doc_id = 1, deleted = True\<rparr>]
   \<and> snd (restoreById 1 (snd (deleteById 1
          [\<lparr>doc_id = 1, deleted = False\<rparr>, \<lparr>doc_id = 2, deleted = False\<rparr>])))
        = [\<lparr>doc_id = 1, deleted = False\<rparr>, \<lparr>doc_id = 2, deleted = False\<rparr>]"
  using softDelete_restore_lifecycle
    [of 1 "[\<lparr>doc_id = 1, deleted = False\<rparr>, \<lparr>doc_id = 2, deleted = False\<rparr>]"
      "\<lparr>doc_id = 1, deleted = False\<rparr>"]
  by (simp add: wf_def getAll_def getAllDeleted_def find_docs_def deleteById_def
      restoreById_def findByIdAndUpdate_def)

section \<open>Facts about the user lookups\<close>

lemma findOne_by_key:
  assumes "distinct (map k c)" and "d \<in> set c"
  shows "findOne (\<lambda>x. k x = k d) c = Some d"
  using assms
proof (induction c)
  case Nil
  then show ?case by simp
next
  case (Cons x c)
  show ?case
  proof (cases "x = d")
    case True
    then show ?thesis by (simp add: findOne_def)
  next
    case False
    with Cons.prems have "k x \<noteq> k d" and "distinct (map k c)" and "d \<in> set c"
      by auto
    with Cons.IH show ?thesis by (simp add: findOne_def)
  qed
qed

lemma getEmail_registered:
  "unique_emails us \<Longrightarrow> u \<in> set us \<Longrightarrow> getEmail (email u) us = Some u"
  unfolding unique_emails_def getEmail_def by (rule findOne_by_key)

lemma getEmail_unregistered:
  "\<forall>u \<in> set us. email u \<noteq> e \<Longrightarrow> getEmail e us = None"
  by (simp add: getEmail_def findOne_None_iff)

lemma findOneAndUpdate_first_match:
  "findOne q c = Some d \<Longrightarrow> fst (findOneAndUpdate q f new c) = Some (if new then f d else d)"
  by (induction c) (auto simp: findOne_def split: prod.splits if_splits)

lemma stored_Some: "stored j c = Some x \<Longrightarrow> x \<in> set c \<and> doc_id x = j"
  by (auto simp: stored_def findOne_def find_Some_iff)

lemma getById_Some: "getById i c = Some x \<Longrightarrow> x \<in> set c \<and> doc_id x = i \<and> \<not> deleted x"
  by (auto simp: getById_def findOne_def find_Some_iff)

lemma stored_map:
  assumes "\<And>x. doc_id (f x) = doc_id x"
  shows "stored j (map f c) = map_option f (stored j c)"
  using assms by (induction c) (auto simp: stored_def findOne_def)

lemma doc_id_apply_patch: "doc_id (apply_patch b u) = doc_id u"
  by (simp add: apply_patch_def)

lemma image_refs_apply_patch: "image_refs (apply_patch b u)
    = (case p_image b of None \<Rightarrow> image_refs u | Some x \<Rightarrow> x)"
  by (simp add: apply_patch_def)

lemma findOne_Some_mem: "findOne q c = Some d \<Longrightarrow> d \<in> set c \<and> q d"
  by (auto simp: findOne_def find_Some_iff)

lemma findOne_after_update:
  assumes "findOne q c = Some d" and same: "\<And>x. q (f x) = q x"
  shows "findOne q (snd (findOneAndUpdate q f new c)) = Some (f d)"
  using assms(1)
proof (induction c)
  case Nil
  then show ?case by (simp add: findOne_def)
next
  case (Cons x c)
  show ?case
  proof (cases "q x")
    case True
    with Cons.prems have "d = x" by (simp add: findOne_def)
    moreover from True have "q (f x)" by (simp only: same)
    ultimately show ?thesis using True by (simp add: findOne_def)
  next
    case False
    with Cons.prems have "findOne q c = Some d" by (simp add: findOne_def)
    from Cons.IH [OF this] False show ?thesis
      by (simp add: findOne_def case_prod_beta)
  qed
qed

lemma findOneAndUpdate_first_match_map:
  assumes "wf c" and "findOne q c = Some d"
  shows "snd (findOneAndUpdate q f new c) = map (\<lambda>x. if doc_id x = doc_id d then f x else x) c"
  using assms
proof (induction c)
  case Nil
  then show ?case by (simp add: findOne_def)
next
  case (Cons x c)
  show ?case
  proof (cases "q x")
    case True
    with Cons.prems have "d = x" and "doc_id x \<notin> set (map doc_id c)"
      by (auto simp: findOne_def wf_def)
    with True show ?thesis by (simp add: map_other_ids)
  next
    case False
    with Cons.prems have found: "findOne q c = Some d" and "wf c"
      by (auto simp: findOne_def wf_def)
    from findOne_Some_mem [OF found] Cons.prems(1) have "doc_id x \<noteq> doc_id d"
      by (auto simp: wf_def)
    with Cons.IH [OF \<open>wf c\<close> found] False show ?thesis by (simp add: case_prod_beta)
  qed
qed

lemma stored_after_update:
  assumes "wf c" and "d \<in> set c" and "\<And>x. doc_id (f x) = doc_id x"
  shows "stored (doc_id d) (map (\<lambda>x. if doc_id x = doc_id d then f x else x) c) = Some (f d)"
proof -
  have "stored (doc_id d) (map (\<lambda>x. if doc_id x = doc_id d then f x else x) c)
      = map_option (\<lambda>x. if doc_id x = doc_id d then f x else x) (stored (doc_id d) c)"
    by (rule stored_map) (simp add: assms(3))
  moreover have "stored (doc_id d) c = Some d"
    unfolding stored_def using findOne_by_id [OF assms(1,2), of "\<lambda>_. True"] by simp
  ultimately show ?thesis by simp
qed

lemma stored_replace:
  assumes "d \<in> set c" and "doc_id d' = doc_id d"
  shows "stored (doc_id d) (map (\<lambda>x. if doc_id x = doc_id d then d' else x) c) = Some d'"
  using assms by (induction c) (auto simp: stored_def findOne_def)



section \<open>Login and logout\<close>

text \<open>
  C2. \<open>loginUser\<close>: when no user has the email it fails with the 404 error
  "No User found" (NotFound) and leaves the state as it was; when the user exists and
  \<open>bcrypt.compare\<close> rejects the password it fails with the 401 error "Password does not
  match" (Unauthorized), again without touching the state; when both checks pass it
  answers with the user and the access token made from the user's id and role, and that
  token is the stored session token afterwards, whatever the slot held before. Nothing
  else of the state changes.
\<close>

theorem loginUser_outcomes:
  "((\<forall>v \<in> set (users st). email v \<noteq> e) \<longrightarrow>
      loginUser cmp gen e pw st = (Inl (HttpError NOT_FOUND ''No User found''), st))
   \<and> (unique_emails (users st) \<and> u \<in> set (users st) \<and> \<not> cmp pw (password u) \<longrightarrow>
      loginUser cmp gen (email u) pw st
        = (Inl (HttpError UNAUTHORIZED ''Password does not match''), st))
   \<and> (unique_emails (users st) \<and> u \<in> set (users st) \<and> cmp pw (password u) \<longrightarrow>
      loginUser cmp gen (email u) pw st
        = (Inr \<lparr>data = Doc (Some u), message = ''User Login successfully'',
                 meta = Some (gen (doc_id u) (role u))\<rparr>,
           st\<lparr>token := Some (gen (doc_id u) (role u))\<rparr>))"
proof -
  have absent: "loginUser cmp gen e pw st = (Inl (HttpError NOT_FOUND ''No User found''), st)"
    if "\<forall>v \<in> set (users st). email v \<noteq> e"
    using getEmail_unregistered [OF that] by (simp add: loginUser_def createError_def)
  have mismatch: "loginUser cmp gen (email u) pw st
        = (Inl (HttpError UNAUTHORIZED ''Password does not match''), st)"
    if "unique_emails (users st)" and "u \<in> set (users st)" and "\<not> cmp pw (password u)"
    using getEmail_registered [OF that(1,2)] that(3)
    by (simp add: loginUser_def createError_def)
  have success: "loginUser cmp gen (email u) pw st
        = (Inr \<lparr>data = Doc (Some u), message = ''User Login successfully'',
                 meta = Some (gen (doc_id u) (role u))\<rparr>,
           st\<lparr>token := Some (gen (doc_id u) (role u))\<rparr>)"
    if "unique_emails (users st)" and "u \<in> set (users st)" and "cmp pw (password u)"
    using getEmail_registered [OF that(1,2)] that(3)
    by (simp add: loginUser_def setToken_def Let_def)
  from absent mismatch success show ?thesis by blast
qed

theorem loginUser_outcomes_witness:
  "loginUser check_hash issue ''bob@example.com'' ''secret'' (state_of [alice])
     = (Inl (HttpError NOT_FOUND ''No User found''), state_of [alice])
   \<and> loginUser check_hash issue ''alice@example.com'' ''guess'' (state_of [alice])
     = (Inl (HttpError UNAUTHORIZED ''Password does not match''), state_of [alice])
   \<and> loginUser check_hash issue ''alice@example.com'' ''secret''
        ((state_of [alice])\<lparr>token := Some ''token:old''\<rparr>)
     = (Inr \<lparr>data = Doc (Some alice), message = ''User Login successfully'',
              meta = Some ''token:customer''\<rparr>,
        (state_of [alice])\<lparr>token := Some ''token:customer''\<rparr>)"
  using loginUser_outcomes [of "state_of [alice]" "''bob@example.com''" check_hash issue "''secret''" alice]
    loginUser_outcomes [of "state_of [alice]" "''bob@example.com''" check_hash issue "''guess''" alice]
    loginUser_outcomes [of "(state_of [alice])\<lparr>token := Some ''token:old''\<rparr>" "''bob@example.com''"
      check_hash issue "''secret''" alice]
  by (simp add: unique_emails_def)

text \<open>
  C8, as amended. A wrong password against a registered email fails with the 401 error
  "Password does not match", an email that is not registered fails with the 404 error
  "No User found", and the two answers differ: the failure tells whether the email is
  registered.
\<close>

theorem loginUser_failures_distinguishable:
  assumes "unique_emails (users st)" and "u \<in> set (users st)" and "\<not> cmp pw (password u)"
    and "\<forall>v \<in> set (users st'). email v \<noteq> email u"
  shows "fst (loginUser cmp gen (email u) pw st)
        = Inl (HttpError UNAUTHORIZED ''Password does not match'')
    \<and> fst (loginUser cmp gen (email u) pw st') = Inl (HttpError NOT_FOUND ''No User found'')
    \<and> fst (loginUser cmp gen (email u) pw st) \<noteq> fst (loginUser cmp gen (email u) pw st')"
proof -
  have "fst (loginUser cmp gen (email u) pw st)
      = Inl (HttpError UNAUTHORIZED ''Password does not match'')"
    using getEmail_registered [OF assms(1,2)] assms(3)
    by (simp add: loginUser_def createError_def)
  moreover have "fst (loginUser cmp gen (email u) pw st') = Inl (HttpError NOT_FOUND ''No User found'')"
    using getEmail_unregistered [OF assms(4)] by (simp add: loginUser_def createError_def)
  ultimately show ?thesis by simp
qed

text \<open>
  The claim as stated says the two failures cannot be told apart. They can: the same
  request against a collection with and without the user gives different errors.
\<close>

theorem loginUser_leaks_registration_counterexample:
  "fst (loginUser check_hash issue ''alice@example.com'' ''guess'' (state_of [alice]))
     \<noteq> fst (loginUser check_hash issue ''alice@example.com'' ''guess'' (state_of []))"
  by (simp add: loginUser_def getEmail_def findOne_def createError_def)

theorem loginUser_failures_distinguishable_witness:
  "unique_emails (users (state_of [alice])) \<and> alice \<in> set (users (state_of [alice]))
   \<and> \<not> check_hash ''guess'' (password alice)
   \<and> fst (loginUser check_hash issue ''alice@example.com'' ''guess'' (state_of [alice]))
       = Inl (HttpError UNAUTHORIZED ''Password does not match'')
   \<and> fst (loginUser check_hash issue ''alice@example.com'' ''guess'' (state_of []))
       = Inl (HttpError NOT_FOUND ''No User found'')"
  using loginUser_failures_distinguishable
    [of "state_of [alice]" alice check_hash "''guess''" "state_of []" issue]
  by (simp add: unique_emails_def)

text \<open>
  C3. \<open>logoutUser\<close> fails with the 401 error "You are not logged in" exactly when no
  session token is stored (the slot is empty or holds the empty string, which is what the
  test \<open>!savedToken\<close> reads as absent) or the stored token is already blacklisted, and
  then the state is unchanged; otherwise it answers the logout and the state differs
  from the one before only in the blacklist, which has gained the current token: the
  token slot keeps its token.
\<close>

theorem logoutUser_spec:
  "(fst (logoutUser st) = Inl (HttpError UNAUTHORIZED ''You are not logged in'')
      \<longleftrightarrow> falsy (token st) \<or> (\<exists>t. token st = Some t \<and> t \<in> blacklist st))
   \<and> (falsy (token st) \<or> (\<exists>t. token st = Some t \<and> t \<in> blacklist st)
        \<longrightarrow> snd (logoutUser st) = st)
   \<and> (token st = Some t \<and> t \<noteq> [] \<and> t \<notin> blacklist st \<longrightarrow>
        logoutUser st
          = (Inr \<lparr>data = Docs [], message = ''User Logout successfully'', meta = None\<rparr>,
             st\<lparr>blacklist := insert t (blacklist st)\<rparr>))"
  by (cases "token st")
    (auto simp: logoutUser_def getToken_def isTokenBlacklisted_def blacklistToken_def
      falsy_def createError_def)

theorem logoutUser_spec_witness:
  "logoutUser ((state_of [alice])\<lparr>token := Some ''token:customer''\<rparr>)
     = (Inr \<lparr>data = Docs [], message = ''User Logout successfully'', meta = None\<rparr>,
        (state_of [alice])\<lparr>token := Some ''token:customer'', blacklist := {''token:customer''}\<rparr>)
   \<and> logoutUser (state_of [alice])
     = (Inl (HttpError UNAUTHORIZED ''You are not logged in''), state_of [alice])
   \<and> logoutUser ((state_of [alice])\<lparr>token := Some ''token:customer'', blacklist := {''token:customer''}\<rparr>)
     = (Inl (HttpError UNAUTHORIZED ''You are not logged in''),
        (state_of [alice])\<lparr>token := Some ''token:customer'', blacklist := {''token:customer''}\<rparr>)"
  using logoutUser_spec [of "(state_of [alice])\<lparr>token := Some ''token:customer''\<rparr>" "''token:customer''"]
    logoutUser_spec [of "state_of [alice]" "''token:customer''"]
    logoutUser_spec [of "(state_of [alice])\<lparr>token := Some ''token:customer'', blacklist := {''token:customer''}\<rparr>"
      "''token:customer''"]
  by (simp add: falsy_def prod_eq_iff)

section \<open>One-time codes\<close>




text \<open>
  Under a schema that gives \<open>null\<close> for a user without a code, no first code can be
  issued: while no user has a code on record, every request ends in the \<open>TypeError\<close>.
\<close>

lemma sendUserEmailOTP_no_first_code:
  assumes "\<not> nested" and "\<forall>u \<in> set (users st). verificationCode u = None"
  shows "sendUserEmailOTP nested randomCode now e st = (Inl TypeError, st)"
proof (cases "getEmail e (users st)")
  case None
  then show ?thesis by (simp add: sendUserEmailOTP_def)
next
  case (Some u)
  then have "u \<in> set (users st)"
    unfolding getEmail_def by (simp add: findOne_Some_mem)
  with assms Some show ?thesis
    by (simp add: sendUserEmailOTP_def read_verificationCode_def)
qed






text \<open>
  What \<open>resetUserEmailPassword\<close> does on the paths that work: missing, empty or
  differing passwords fail with the 400 error; with a known code, more than five minutes
  after it was issued the handler fails with "Verification code has expired", otherwise
  it answers with the user carrying the new password hash and no code. With a code that
  no user has, it fails with a \<open>TypeError\<close>.
\<close>

lemma resetUserEmailPassword_bad_passwords:
  assumes "falsy (newPassword body) \<or> falsy (confirmPassword body)
    \<or> newPassword body \<noteq> confirmPassword body"
  shows "resetUserEmailPassword hash now body st
    = (Inl (HttpError BAD_REQUEST ''Passwords are required and must match''), st)"
  using assms by (auto simp: resetUserEmailPassword_def createError_def)

lemma resetUserEmailPassword_known_code:
  assumes "newPassword body = Some pw" and "pw \<noteq> []" and "confirmPassword body = Some pw"
    and "getCode (body_verificationCode body) (users st) = Some c"
    and "verificationCode c = Some v"
  shows "fst (resetUserEmailPassword hash now body st)
    = (if now - createdAt v > 5 * 60 * 1000
       then Inl (HttpError INTERNAL_SERVER_ERROR ''Verification code has expired'')
       else Inr \<lparr>data = Docs [Some (c\<lparr>password := hash pw, verificationCode := None\<rparr>)],
                 message = ''Password Successfully Reset'', meta = None\<rparr>)"
proof -
  from assms(4) have "fst (resetPassword hash (body_verificationCode body) pw (users st))
      = Some (c\<lparr>password := hash pw, verificationCode := None\<rparr>)"
    unfolding resetPassword_def getCode_def
    by (simp add: findOneAndUpdate_first_match)
  with assms show ?thesis
    by (auto simp: resetUserEmailPassword_def falsy_def createError_message_def
        split: prod.splits)
qed

lemma resetUserEmailPassword_unknown_code:
  assumes "\<not> falsy (newPassword body)" and "newPassword body = confirmPassword body"
    and "getCode (body_verificationCode body) (users st) = None"
  shows "resetUserEmailPassword hash now body st = (Inl TypeError, st)"
  using assms by (simp add: resetUserEmailPassword_def)

text \<open>
  The stored user after a reset with a known code: an expired code is cleared and
  nothing else of the user changes; a code in time is cleared and the password hash is
  the hash of the new password.
\<close>

lemma resetUserEmailPassword_expired_state:
  assumes "wf (users st)"
    and "newPassword body = Some pw" and "pw \<noteq> []" and "confirmPassword body = Some pw"
    and "getCode (body_verificationCode body) (users st) = Some c"
    and "verificationCode c = Some v" and "now - createdAt v > 5 * 60 * 1000"
  shows "resetUserEmailPassword hash now body st
      = (Inl (HttpError INTERNAL_SERVER_ERROR ''Verification code has expired''),
         st\<lparr>users := map (\<lambda>x. if doc_id x = doc_id c then c\<lparr>verificationCode := None\<rparr> else x)
                     (users st)\<rparr>)
    \<and> stored (doc_id c) (users (snd (resetUserEmailPassword hash now body st)))
      = Some (c\<lparr>verificationCode := None\<rparr>)"
proof -
  from assms(5) have mem: "c \<in> set (users st)"
    unfolding getCode_def by (simp add: findOne_Some_mem)
  have saved: "save (c\<lparr>verificationCode := None\<rparr>) (users st)
      = map (\<lambda>x. if doc_id x = doc_id c then c\<lparr>verificationCode := None\<rparr> else x) (users st)"
    using findByIdAndUpdate_present [OF assms(1) mem, of "\<lambda>_. c\<lparr>verificationCode := None\<rparr>" False]
    by (simp add: save_def)
  have run: "resetUserEmailPassword hash now body st
      = (Inl (HttpError INTERNAL_SERVER_ERROR ''Verification code has expired''),
         st\<lparr>users := map (\<lambda>x. if doc_id x = doc_id c then c\<lparr>verificationCode := None\<rparr> else x)
                     (users st)\<rparr>)"
    using assms(2-7) saved
    by (simp add: resetUserEmailPassword_def falsy_def createError_message_def)
  have "stored (doc_id c)
      (map (\<lambda>x. if doc_id x = doc_id c then c\<lparr>verificationCode := None\<rparr> else x) (users st))
      = Some (c\<lparr>verificationCode := None\<rparr>)"
    using mem by (rule stored_replace) simp
  with run show ?thesis by simp
qed

lemma resetUserEmailPassword_success_state:
  assumes "wf (users st)"
    and "newPassword body = Some pw" and "pw \<noteq> []" and "confirmPassword body = Some pw"
    and "getCode (body_verificationCode body) (users st) = Some c"
    and "verificationCode c = Some v" and "\<not> now - createdAt v > 5 * 60 * 1000"
  shows "stored (doc_id c) (users (snd (resetUserEmailPassword hash now body st)))
      = Some (c\<lparr>password := hash pw, verificationCode := None\<rparr>)"
proof -
  let ?f = "\<lambda>u. u\<lparr>password := hash pw, verificationCode := None\<rparr>"
  from assms(5) have found: "findOne (has_code (body_verificationCode body)) (users st) = Some c"
    by (simp add: getCode_def)
  from findOne_Some_mem [OF found] have mem: "c \<in> set (users st)" by simp
  have "snd (resetPassword hash (body_verificationCode body) pw (users st))
      = map (\<lambda>x. if doc_id x = doc_id c then ?f x else x) (users st)"
    unfolding resetPassword_def using assms(1) found by (rule findOneAndUpdate_first_match_map)
  moreover have "stored (doc_id c) (map (\<lambda>x. if doc_id x = doc_id c then ?f x else x) (users st))
      = Some (?f c)"
    using assms(1) mem by (rule stored_after_update) simp
  ultimately show ?thesis
    using assms(2-7)
    by (simp add: resetUserEmailPassword_def falsy_def case_prod_beta split: option.splits)
qed

text \<open>
  C4 asks a reset with a code that no user has stored to fail with the 400 error
  "Invalid verification code". The handler evaluated on such a request, and on the two
  requests of the spec's scenario (an expired code, then the same code again): the
  unknown code ends in the \<open>TypeError\<close>; the expired code fails as expired and clears
  the stored code; the repeated request ends in the \<open>TypeError\<close> too, since the lookup
  now finds no user.
\<close>

theorem resetUserEmailPassword_unknown_code_fails_TypeError:
  "resetUserEmailPassword salted 1700000000001
      \<lparr>newPassword = Some ''n3w'', confirmPassword = Some ''n3w'',
       body_verificationCode = ''999999''\<rparr> (state_of [carol])
     = (Inl TypeError, state_of [carol])
   \<and> resetUserEmailPassword salted 1700000300001
      \<lparr>newPassword = Some ''n3w'', confirmPassword = Some ''n3w'',
       body_verificationCode = ''111111''\<rparr> (state_of [carol])
     = (Inl (HttpError INTERNAL_SERVER_ERROR ''Verification code has expired''),
        state_of [carol\<lparr>verificationCode := None\<rparr>])
   \<and> resetUserEmailPassword salted 1700000300002
      \<lparr>newPassword = Some ''n3w'', confirmPassword = Some ''n3w'',
       body_verificationCode = ''111111''\<rparr> (state_of [carol\<lparr>verificationCode := None\<rparr>])
     = (Inl TypeError, state_of [carol\<lparr>verificationCode := None\<rparr>])"
  by (simp add: resetUserEmailPassword_def falsy_def getCode_def has_code_def findOne_def
      createError_message_def save_def findByIdAndUpdate_def)

section \<open>Profile images on update and force delete\<close>

lemma updateUser_no_files_missing:
  "getById i (users st) = None \<Longrightarrow> updateUser valid upload i body [] st = (Inl TypeError, st)"
  by (simp add: updateUser_def)

lemma updateUser_no_files_invalid:
  "getById i (users st) = Some old \<Longrightarrow> \<not> valid (body\<lparr>p_image := Some (image_refs old)\<rparr>)
    \<Longrightarrow> updateUser valid upload i body [] st = (Inl ValidationError, st)"
  by (simp add: updateUser_def update_def)

lemma updateUser_no_files_valid:
  assumes "wf (users st)" and "getById i (users st) = Some old"
    and "valid (body\<lparr>p_image := Some (image_refs old)\<rparr>)"
  shows "updateUser valid upload i body [] st
    = (Inr \<lparr>data = Docs [Some (apply_patch (body\<lparr>p_image := Some (image_refs old)\<rparr>) old)],
             message = ''User updated successfully'', meta = None\<rparr>,
       st\<lparr>users := map (\<lambda>x. if doc_id x = i
                  then apply_patch (body\<lparr>p_image := Some (image_refs old)\<rparr>) x else x)
                (users st)\<rparr>)"
proof -
  from getById_Some [OF assms(2)] have old: "old \<in> set (users st)" "doc_id old = i"
    by simp_all
  from findByIdAndUpdate_present [OF assms(1) old(1),
      of "apply_patch (body\<lparr>p_image := Some (image_refs old)\<rparr>)" True] old(2) assms(2,3)
  show ?thesis by (simp add: updateUser_def update_def)
qed

lemma updateUser_no_files_images:
  assumes "wf (users st)"
  shows "map_option image_refs (stored j (users (snd (updateUser valid upload i body [] st))))
    = map_option image_refs (stored j (users st))"
proof (cases "getById i (users st)")
  case None
  then show ?thesis by (simp add: updateUser_no_files_missing)
next
  case (Some old)
  show ?thesis
  proof (cases "valid (body\<lparr>p_image := Some (image_refs old)\<rparr>)")
    case False
    with Some show ?thesis by (simp add: updateUser_no_files_invalid)
  next
    case True
    let ?f = "\<lambda>x. if doc_id x = i
      then apply_patch (body\<lparr>p_image := Some (image_refs old)\<rparr>) x else x"
    from getById_Some [OF Some] have old: "old \<in> set (users st)" "doc_id old = i"
      by simp_all
    have keep: "image_refs (?f x) = image_refs x" if "x \<in> set (users st)" for x
    proof (cases "doc_id x = i")
      case True
      with wf_same_id [OF assms old(1) that] old(2) have "x = old" by simp
      then show ?thesis by (simp add: image_refs_apply_patch)
    next
      case False
      then show ?thesis by simp
    qed
    have "stored j (map ?f (users st)) = map_option ?f (stored j (users st))"
      by (rule stored_map) (simp add: doc_id_apply_patch)
    moreover have "map_option image_refs (map_option ?f (stored j (users st)))
        = map_option image_refs (stored j (users st))"
    proof (cases "stored j (users st)")
      case None
      then show ?thesis by simp
    next
      case (Some x)
      with stored_Some [OF Some] keep [of x] show ?thesis by simp
    qed
    ultimately show ?thesis
      by (simp add: updateUser_no_files_valid [where valid = valid and body = body, OF assms Some True])
  qed
qed

lemma updateUser_no_files_store_untouched:
  "image_deletes (snd (updateUser valid upload i body [] st)) = image_deletes st"
  by (cases "getById i (users st)")
    (auto simp: updateUser_def update_def split: prod.splits sum.splits)

lemma forceDeleteUser_present:
  assumes "wf (users st)" and "d \<in> set (users st)"
  shows "forceDeleteUser upload (doc_id d) st
    = (Inr \<lparr>data = Docs [Some d], message = ''User force deleted successfully'', meta = None\<rparr>,
       st\<lparr>users := filter (\<lambda>x. doc_id x \<noteq> doc_id d) (users st),
          image_deletes := image_deletes st @ [map public_id (image_refs d)]\<rparr>)"
  using findByIdAndDelete_present [OF assms]
  by (simp add: forceDeleteUser_def forceDelete_def multipleImages_def)

text \<open>
  C9. An update request that carries no new files leaves the image references of every
  stored user as they were and asks the image store for nothing; on a user that is
  present and active, with a body the schema accepts, the update succeeds and the
  updated user still has the image references it had. Force-deleting a stored user asks
  the image store to delete exactly the public ids of the images stored on that user,
  in their order, and removes the user.
\<close>

theorem user_images_retained_and_deleted_exactly:
  assumes "wf (users st)"
  shows "map_option image_refs (stored j (users (snd (updateUser valid upload i body [] st))))
      = map_option image_refs (stored j (users st))
    \<and> image_deletes (snd (updateUser valid upload i body [] st)) = image_deletes st
    \<and> (u \<in> set (users st) \<and> \<not> deleted u \<and> valid (body\<lparr>p_image := Some (image_refs u)\<rparr>) \<longrightarrow>
        (\<exists>u'. fst (updateUser valid upload (doc_id u) body [] st)
                 = Inr \<lparr>data = Docs [Some u'], message = ''User updated successfully'',
                        meta = None\<rparr>
             \<and> stored (doc_id u) (users (snd (updateUser valid upload (doc_id u) body [] st)))
                 = Some u'
             \<and> image_refs u' = image_refs u))
    \<and> (d \<in> set (users st) \<longrightarrow>
        image_deletes (snd (forceDeleteUser upload (doc_id d) st))
          = image_deletes st @ [map public_id (image_refs d)]
        \<and> stored (doc_id d) (users (snd (forceDeleteUser upload (doc_id d) st))) = None)"
proof -
  have success: "\<exists>u'. fst (updateUser valid upload (doc_id u) body [] st)
                 = Inr \<lparr>data = Docs [Some u'], message = ''User updated successfully'',
                        meta = None\<rparr>
             \<and> stored (doc_id u) (users (snd (updateUser valid upload (doc_id u) body [] st)))
                 = Some u'
             \<and> image_refs u' = image_refs u"
    if "u \<in> set (users st)" and "\<not> deleted u"
      and "valid (body\<lparr>p_image := Some (image_refs u)\<rparr>)"
  proof -
    let ?b = "body\<lparr>p_image := Some (image_refs u)\<rparr>"
    let ?f = "\<lambda>x. if doc_id x = doc_id u then apply_patch ?b x else x"
    have found: "getById (doc_id u) (users st) = Some u"
      unfolding getById_def using assms that(1) by (rule findOne_by_id) (simp add: that(2))
    note run = updateUser_no_files_valid [where valid = valid and body = body, OF assms found that(3)]
    have "stored (doc_id u) (map ?f (users st)) = map_option ?f (stored (doc_id u) (users st))"
      by (rule stored_map) (simp add: doc_id_apply_patch)
    moreover have "stored (doc_id u) (users st) = Some u"
      unfolding stored_def using findOne_by_id [OF assms that(1), of "\<lambda>_. True"] by simp
    ultimately have "stored (doc_id u) (map ?f (users st)) = Some (apply_patch ?b u)"
      by simp
    with run show ?thesis by (simp add: image_refs_apply_patch)
  qed
  have force: "image_deletes (snd (forceDeleteUser upload (doc_id d) st))
          = image_deletes st @ [map public_id (image_refs d)]
        \<and> stored (doc_id d) (users (snd (forceDeleteUser upload (doc_id d) st))) = None"
    if "d \<in> set (users st)"
    by (simp add: forceDeleteUser_present [OF assms that] stored_def findOne_None_iff)
  from updateUser_no_files_images [OF assms] updateUser_no_files_store_untouched success force
  show ?thesis by blast
qed

theorem user_images_retained_and_deleted_exactly_witness:
  "wf (users (state_of [alice, carol])) \<and> \<not> deleted alice
   \<and> updateUser (\<lambda>_. True) (\<lambda>fs. []) 1
        \<lparr>p_email = None, p_password = None, p_role = Some ''admin'', p_deleted = None,
         p_image = None\<rparr> [] (state_of [alice, carol])
      = (Inr \<lparr>data = Docs [Some (alice\<lparr>role := ''admin''\<rparr>)],
               message = ''User updated successfully'', meta = None\<rparr>,
         state_of [alice\<lparr>role := ''admin''\<rparr>, carol])
   \<and> forceDeleteUser (\<lambda>fs. []) 1 (state_of [alice, carol])
      = (Inr \<lparr>data = Docs [Some alice], message = ''User force deleted successfully'',
               meta = None\<rparr>,
         (state_of [carol])\<lparr>image_deletes := [[''img1'']]\<rparr>)"
  using user_images_retained_and_deleted_exactly
    [of "state_of [alice, carol]" 1 "\<lambda>_. True" "\<lambda>fs. []" 1
      "\<lparr>p_email = None, p_password = None, p_role = Some ''admin'', p_deleted = None,
         p_image = None\<rparr>" alice alice]
  by (simp add: wf_def updateUser_def getById_def findOne_def update_def
      findByIdAndUpdate_def apply_patch_def forceDeleteUser_def forceDelete_def
      findByIdAndDelete_def multipleImages_def)

end
